theory Spec2Isabelle
  imports Main "HOL-Library.Word" "HOL-Library.Sublist" "HOL-Library.Multiset"
    "HOL-Library.Product_Lexorder"
begin

section \<open>JavaScript strings and the built-ins the pages call\<close>

text \<open>
  A JavaScript string is a sequence of UTF-16 code units; \<open>===\<close>, \<open>includes\<close> and
  \<open>trim\<close> all work on code units. \<open>js\<close> turns an ASCII literal of the source into
  its code units.
\<close>

type_synonym code_unit = "16 word"
type_synonym jsstring = "code_unit list"

definition js :: "string \<Rightarrow> jsstring" where
  "js s = map of_char s"

text \<open>
  \<open>String.prototype.trim\<close> removes, at both ends, the code units of ECMAScript's
  WhiteSpace and LineTerminator productions: TAB, VT, FF, SP, NBSP, ZWNBSP, the
  Unicode space separators, and LF, CR, LS, PS.
\<close>

definition isWhiteSpace :: "code_unit \<Rightarrow> bool" where
  "isWhiteSpace c \<longleftrightarrow>
     c = 0x0009 \<or> c = 0x000A \<or> c = 0x000B \<or> c = 0x000C \<or> c = 0x000D \<or>
     c = 0x0020 \<or> c = 0x00A0 \<or> c = 0x1680 \<or> (0x2000 \<le> c \<and> c \<le> 0x200A) \<or>
     c = 0x2028 \<or> c = 0x2029 \<or> c = 0x202F \<or> c = 0x205F \<or> c = 0x3000 \<or>
     c = 0xFEFF"

definition trim :: "jsstring \<Rightarrow> jsstring" where
  "trim s = rev (dropWhile isWhiteSpace (rev (dropWhile isWhiteSpace s)))"

text \<open>
  \<open>String.prototype.includes(t)\<close>, named \<open>str_includes\<close> here: does
  \<open>t\<close> occur in the string at some position. The search tries every start
  position from the left.
\<close>

fun str_includes :: "'a list \<Rightarrow> 'a list \<Rightarrow> bool" where
  "str_includes [] t = (t = [])"
| "str_includes (c # s) t = (prefix t (c # s) \<or> str_includes s t)"

section \<open>The Upload page\<close>

text \<open>
  The browser's \<open>File\<close> object, as far as the page reads it: \<open>name\<close>,
  \<open>size\<close> and \<open>type\<close> (the MIME type the browser reports).
\<close>

record jsfile =
  file_name :: jsstring
  file_size :: nat
  file_type :: jsstring

text \<open>The component's state: one field per \<open>useState\<close> of \<open>Upload\<close>.\<close>

record upload_state =
  selectedFile :: "jsfile option"
  xmlFile :: "jsfile option"
  tags :: "jsstring list"
  currentTag :: jsstring
  uploading :: bool
  uploadProgress :: nat

definition Upload_init :: upload_state where
  "Upload_init = \<lparr>selectedFile = None, xmlFile = None, tags = [], currentTag = [],
     uploading = False, uploadProgress = 0\<rparr>"

text \<open>
  \<open>onDrop\<close>: the first accepted file becomes the selected file; an empty drop
  changes nothing.
\<close>

definition onDrop :: "upload_state \<Rightarrow> jsfile list \<Rightarrow> upload_state" where
  "onDrop st acceptedFiles =
     (case acceptedFiles of
        [] \<Rightarrow> st
      | file # _ \<Rightarrow> st\<lparr>selectedFile := Some file\<rparr>)"

text \<open>
  \<open>handleXmlFileChange\<close>: \<open>event.target.files\<close> is a \<open>FileList\<close> or
  \<open>null\<close>; \<open>files?.[0]\<close> is \<open>undefined\<close> for \<open>null\<close> and for an
  empty list, and then the guard \<open>file && ...\<close> fails.
\<close>

definition handleXmlFileChange :: "upload_state \<Rightarrow> jsfile list option \<Rightarrow> upload_state" where
  "handleXmlFileChange st files =
     (case files of
        None \<Rightarrow> st
      | Some [] \<Rightarrow> st
      | Some (file # _) \<Rightarrow>
          if file_type file = js ''text/xml'' then st\<lparr>xmlFile := Some file\<rparr> else st)"

text \<open>
  \<open>handleAddTag\<close>: the empty string is the only falsy string, so
  \<open>currentTag.trim() && ...\<close> tests that the trimmed input is not empty;
  \<open>tags.includes\<close> on an array of strings is membership.
\<close>

definition handleAddTag :: "upload_state \<Rightarrow> upload_state" where
  "handleAddTag st =
     (if trim (currentTag st) \<noteq> [] \<and> trim (currentTag st) \<notin> set (tags st)
      then st\<lparr>tags := tags st @ [trim (currentTag st)], currentTag := []\<rparr>
      else st)"

definition handleRemoveTag :: "upload_state \<Rightarrow> jsstring \<Rightarrow> upload_state" where
  "handleRemoveTag st tagToRemove =
     st\<lparr>tags := filter (\<lambda>tag. tag \<noteq> tagToRemove) (tags st)\<rparr>"

text \<open>
  \<open>handleUpload\<close> returns at once when no file is selected; otherwise it sets
  \<open>uploading\<close>, resets the progress and starts a 200 ms interval. It sends nothing:
  the source logs the file, the XML file and the tags, and leaves the transfer as
  a TODO. \<open>progressTick\<close> is the interval's callback: the updater passed to
  \<open>setUploadProgress\<close>, with the \<open>setUploading(false)\<close> it performs on the way.
\<close>

definition handleUpload :: "upload_state \<Rightarrow> upload_state" where
  "handleUpload st =
     (case selectedFile st of
        None \<Rightarrow> st
      | Some _ \<Rightarrow> st\<lparr>uploading := True, uploadProgress := 0\<rparr>)"

definition progressTick :: "upload_state \<Rightarrow> upload_state" where
  "progressTick st =
     (if 100 \<le> uploadProgress st then st\<lparr>uploading := False, uploadProgress := 100\<rparr>
      else st\<lparr>uploadProgress := uploadProgress st + 10\<rparr>)"

text \<open>
  What can happen to the state, one event per handler wired in the JSX: typing in
  the tag field (\<open>setCurrentTag\<close>), Add or Enter, a chip's delete, choosing an XML
  file, a drop, the Upload button, and a tick of the progress interval. A tick is
  allowed at any time, which covers every interleaving of the timer.
\<close>

datatype upload_event =
    TypeTag jsstring
  | AddTag
  | RemoveTag jsstring
  | XmlFileChange "jsfile list option"
  | Drop "jsfile list"
  | Upload
  | Tick

fun upload_step :: "upload_state \<Rightarrow> upload_event \<Rightarrow> upload_state" where
  "upload_step st (TypeTag v) = st\<lparr>currentTag := v\<rparr>"
| "upload_step st AddTag = handleAddTag st"
| "upload_step st (RemoveTag t) = handleRemoveTag st t"
| "upload_step st (XmlFileChange files) = handleXmlFileChange st files"
| "upload_step st (Drop acceptedFiles) = onDrop st acceptedFiles"
| "upload_step st Upload = handleUpload st"
| "upload_step st Tick = progressTick st"

section \<open>The Files page\<close>

text \<open>
  \<open>FileData\<close> of the source, with \<open>id\<close>, \<open>size\<close>, \<open>type\<close> and
  \<open>tags\<close> written \<open>fd_id\<close>, \<open>fd_size\<close>, \<open>fd_type\<close> and \<open>fd_tags\<close>
  (the plain names are taken), and the three rows of \<open>mockFiles\<close>.
\<close>

record FileData =
  fd_id :: jsstring
  filename :: jsstring
  fd_size :: jsstring
  fd_type :: jsstring
  uploadDate :: jsstring
  fd_tags :: "jsstring list"

definition mockFiles :: "FileData list" where
  "mockFiles =
     [\<lparr>fd_id = js ''1'', filename = js ''project-proposal.pdf'', fd_size = js ''2.5 MB'',
        fd_type = js ''PDF'', uploadDate = js ''2023-12-01'',
        fd_tags = [js ''proposal'', js ''important'']\<rparr>,
      \<lparr>fd_id = js ''2'', filename = js ''financial-report.xlsx'', fd_size = js ''1.8 MB'',
        fd_type = js ''Excel'', uploadDate = js ''2023-12-02'',
        fd_tags = [js ''finance'', js ''report'']\<rparr>,
      \<lparr>fd_id = js ''3'', filename = js ''presentation.pptx'', fd_size = js ''5.2 MB'',
        fd_type = js ''PowerPoint'', uploadDate = js ''2023-12-03'',
        fd_tags = [js ''presentation'']\<rparr>]"

text \<open>
  The numbers the page holds: \<open>page\<close> starts at 0 and is set to the page index
  that \<open>TablePagination\<close> reports; \<open>rowsPerPage\<close> starts at 10 and is set to
  the result of \<open>parseInt\<close>, an integer or \<open>NaN\<close>. \<open>*\<close> and \<open>+\<close> give
  \<open>NaN\<close> when an operand is \<open>NaN\<close>.
\<close>

datatype jsnumber = NaN | Num int

fun num_mul :: "jsnumber \<Rightarrow> jsnumber \<Rightarrow> jsnumber" where
  "num_mul (Num a) (Num b) = Num (a * b)"
| "num_mul _ _ = NaN"

fun num_add :: "jsnumber \<Rightarrow> jsnumber \<Rightarrow> jsnumber" where
  "num_add (Num a) (Num b) = Num (a + b)"
| "num_add _ _ = NaN"

text \<open>
  \<open>Array.prototype.slice(start, end)\<close> as ECMAScript defines it: both arguments
  go through \<open>ToIntegerOrInfinity\<close> (\<open>NaN\<close> becomes 0), a negative index
  counts from the end, both are clamped to the length, and an empty or inverted
  range gives the empty array.
\<close>

fun ToIntegerOrInfinity :: "jsnumber \<Rightarrow> int" where
  "ToIntegerOrInfinity NaN = 0"
| "ToIntegerOrInfinity (Num n) = n"

definition slice :: "'a list \<Rightarrow> jsnumber \<Rightarrow> jsnumber \<Rightarrow> 'a list" where
  "slice xs start end' =
     (let len = int (length xs);
          relativeStart = ToIntegerOrInfinity start;
          k = (if relativeStart < 0 then max (len + relativeStart) 0 else min relativeStart len);
          relativeEnd = ToIntegerOrInfinity end';
          final = (if relativeEnd < 0 then max (len + relativeEnd) 0 else min relativeEnd len);
          count = max (final - k) 0
      in take (nat count) (drop (nat k) xs))"

record files_state =
  searchTerm :: jsstring
  page :: jsnumber
  rowsPerPage :: jsnumber

definition Files_init :: files_state where
  "Files_init = \<lparr>searchTerm = [], page = Num 0, rowsPerPage = Num 10\<rparr>"

text \<open>
  \<open>filteredFiles\<close>, over any list of rows (the source passes \<open>mockFiles\<close>).
  \<open>String.prototype.toLowerCase\<close> is the engine's Unicode case mapping; it is a
  parameter here, so what is proved holds whatever that mapping is.
\<close>

definition filteredFiles :: "(jsstring \<Rightarrow> jsstring) \<Rightarrow> FileData list \<Rightarrow> jsstring \<Rightarrow> FileData list" where
  "filteredFiles toLowerCase files s =
     filter (\<lambda>file. str_includes (toLowerCase (filename file)) (toLowerCase s)) files"

text \<open>
  The rows the table body maps over:
  \<open>filteredFiles.slice(page * rowsPerPage, page * rowsPerPage + rowsPerPage)\<close>.
\<close>

definition renderedRows :: "(jsstring \<Rightarrow> jsstring) \<Rightarrow> FileData list \<Rightarrow> files_state \<Rightarrow> FileData list" where
  "renderedRows toLowerCase files st =
     slice (filteredFiles toLowerCase files (searchTerm st))
       (num_mul (page st) (rowsPerPage st))
       (num_add (num_mul (page st) (rowsPerPage st)) (rowsPerPage st))"

text \<open>
  The two handlers of \<open>TablePagination\<close>. \<open>parseInt(value, 10)\<close> is the
  engine's; it is a parameter.
\<close>

definition onPageChange :: "files_state \<Rightarrow> jsnumber \<Rightarrow> files_state" where
  "onPageChange st newPage = st\<lparr>page := newPage\<rparr>"

definition onRowsPerPageChange :: "(jsstring \<Rightarrow> jsnumber) \<Rightarrow> files_state \<Rightarrow> jsstring \<Rightarrow> files_state" where
  "onRowsPerPageChange parseInt10 st v = st\<lparr>rowsPerPage := parseInt10 v, page := Num 0\<rparr>"

section \<open>The content core, modelled from the specification\<close>

text \<open>
  The storage and metadata core (Storage Provider, Metadata Store, Content
  Registry) belongs to the backend service, which the repository builds from
  \<open>backend/\<close> and which is not among the sources. The definitions of this
  section follow the specification's sections 3 and 4 instead, and each says so.
  Transient outages of the two backends are the environment's; they appear only
  where the specification says what follows one: a failed blob delete during
  the purge that follows a delete. Of the upload, the orchestration of section
  4.4 is modelled: the configured policy is a parameter and the transfer is one
  \<open>put\<close> of the whole stream; the Chunked Transfer Engine is not modelled.
\<close>

text \<open>
  Modelled from the spec: the backend's value types are missing. A tenant is an
  opaque identifier string; a blob is a finite sequence of bytes.
\<close>

type_synonym tenant = string
type_synonym bytes = "8 word list"

text \<open>
  Modelled from the spec: the backend's \<open>storageProvider\<close> tag is missing; section
  3 gives its four values.
\<close>

datatype provider = Local | Azure | GCP | AWS

text \<open>
  Modelled from the spec: the backend's lifecycle state is missing; section 4.4
  gives the state machine \<open>Pending -> Active -> Tombstoned -> Purged\<close>.
\<close>

datatype file_status = Pending | Active | Tombstoned | Purged

text \<open>
  Modelled from the spec: the backend's error type is missing; section 7 gives
  the taxonomy (its \<open>Conflict\<close> is the \<open>DuplicateId\<close> of section 4.3).
\<close>

datatype error =
    ValidationError | Forbidden | NotFound | StorageUnavailable | StoreUnavailable
  | QuotaExceeded | SizeMismatch | SizeLimitExceeded | DuplicateId

text \<open>
  Modelled from the spec: the backend's storage key is missing. Section 4.1: key
  construction always embeds the tenant ID, so a key is the tenant together with
  the key the caller of \<open>put\<close> chose.
\<close>

record storage_key =
  key_tenant :: tenant
  key_name :: string

text \<open>
  Modelled from the spec: the backend's File Record is missing; the fields are
  those of section 3, with \<open>id\<close>, \<open>filename\<close> and \<open>tags\<close> written \<open>fr_id\<close>,
  \<open>fr_filename\<close> and \<open>fr_tags\<close>. Timestamps are clock readings.
\<close>

record file_record =
  fr_id :: nat
  tenantId :: tenant
  fr_filename :: string
  contentType :: string
  sizeBytes :: nat
  storageKey :: storage_key
  storageProvider :: provider
  metadataXml :: "string option"
  fr_tags :: "string list"
  createdAt :: nat
  updatedAt :: nat
  status :: file_status

subsection \<open>Metadata Store\<close>

text \<open>
  Modelled from the spec: the backend's query filter is missing. Section 4.3
  names the filters: filename substring, tags, status. \<open>q_tenant\<close> is the tenant
  a caller may have written into the filter, or omitted.
\<close>

record query_filter =
  q_tenant :: "tenant option"
  q_filename :: "string option"
  q_tags :: "string list"
  q_status :: "file_status option"

text \<open>
  Modelled from the spec: the backend's page request is missing; section 4.3
  names \<open>limit\<close> and \<open>offset\<close>.
\<close>

record page_request =
  limit :: nat
  offset :: nat

text \<open>
  Modelled from the spec: the backend's row predicate is missing. Section 4.3:
  the tenant of the caller's context is always applied, whatever the filter
  says (\<open>q_tenant\<close> is never read); the file name must contain the substring,
  the record must carry every requested tag (intersection), and the status must
  be the requested one.
\<close>

definition matches :: "tenant \<Rightarrow> query_filter \<Rightarrow> file_record \<Rightarrow> bool" where
  "matches ctx flt r \<longleftrightarrow>
     tenantId r = ctx \<and>
     (case q_filename flt of None \<Rightarrow> True | Some s \<Rightarrow> str_includes (fr_filename r) s) \<and>
     list_all (\<lambda>t. t \<in> set (fr_tags r)) (q_tags flt) \<and>
     (case q_status flt of None \<Rightarrow> True | Some s \<Rightarrow> status r = s)"

text \<open>
  Modelled from the spec: the backend's sort key is missing. Section 4.3: by
  \<open>createdAt\<close> descending, ties broken by \<open>id\<close>; pairs are compared
  lexicographically.
\<close>

definition order_key :: "file_record \<Rightarrow> int \<times> nat" where
  "order_key r = (- int (createdAt r), fr_id r)"

text \<open>
  Modelled from the spec: the Metadata Store's \<open>query\<close> is missing. Section 4.3:
  filter, order, then paginate by \<open>offset\<close> and \<open>limit\<close>. The store is the list of
  its rows.
\<close>

definition ms_query :: "tenant \<Rightarrow> query_filter \<Rightarrow> page_request \<Rightarrow> file_record list \<Rightarrow> file_record list" where
  "ms_query ctx flt pg rows =
     take (limit pg) (drop (offset pg) (sort_key order_key (filter (matches ctx flt) rows)))"

text \<open>
  Modelled from the spec: the Metadata Store's access check is missing. Section
  4.3: a record is the caller's when its id and its tenant both match.
\<close>

definition owned :: "tenant \<Rightarrow> nat \<Rightarrow> file_record \<Rightarrow> bool" where
  "owned ctx i r \<longleftrightarrow> fr_id r = i \<and> tenantId r = ctx"


text \<open>
  Modelled from the spec: the Metadata Store's \<open>get\<close> is missing. Section 4.4:
  a record is resolved by id and tenant, and a mismatch is \<open>NotFound\<close>.
\<close>

definition ms_get :: "tenant \<Rightarrow> nat \<Rightarrow> file_record list \<Rightarrow> error + file_record" where
  "ms_get ctx i rows =
     (case find (owned ctx i) rows of None \<Rightarrow> Inl NotFound | Some r \<Rightarrow> Inr r)"

text \<open>
  Modelled from the spec: the Metadata Store's \<open>update\<close> is missing. Section 4.3:
  it fails with \<open>NotFound\<close> if the record or its tenant does not match the
  caller's tenant context; otherwise the caller's record is changed.
\<close>

definition ms_update ::
  "tenant \<Rightarrow> nat \<Rightarrow> (file_record \<Rightarrow> file_record) \<Rightarrow> file_record list \<Rightarrow> error + file_record list" where
  "ms_update ctx i change rows =
     (case ms_get ctx i rows of
        Inl e \<Rightarrow> Inl e
      | Inr _ \<Rightarrow> Inr (map (\<lambda>r. if owned ctx i r then change r else r) rows))"

text \<open>
  Modelled from the spec: the marking that \<open>softDelete\<close> applies is missing.
  Section 4.4: delete marks the record \<open>Tombstoned\<close>; a record that is already
  \<open>Tombstoned\<close> or \<open>Purged\<close> stays as it is (section 8: a second delete is a
  no-op).
\<close>

definition tombstone :: "nat \<Rightarrow> file_record \<Rightarrow> file_record" where
  "tombstone now r =
     (if status r = Active then r\<lparr>updatedAt := now, status := Tombstoned\<rparr> else r)"

text \<open>
  Modelled from the spec: the Metadata Store's \<open>softDelete\<close> is missing; it is
  the access-checked update (section 4.3) by the marking above.
\<close>

definition ms_softDelete :: "tenant \<Rightarrow> nat \<Rightarrow> nat \<Rightarrow> file_record list \<Rightarrow> error + file_record list" where
  "ms_softDelete ctx i now rows = ms_update ctx i (tombstone now) rows"

subsection \<open>Storage Provider\<close>

text \<open>
  Modelled from the spec: the Storage Provider's blob namespace is missing: a
  partial map from storage keys to bytes.
\<close>

type_synonym blob_store = "storage_key \<rightharpoonup> bytes"

text \<open>
  Modelled from the spec: the Storage Provider's key construction is missing.
  Section 4.1: it always embeds the tenant ID.
\<close>

definition make_key :: "tenant \<Rightarrow> string \<Rightarrow> storage_key" where
  "make_key t k = \<lparr>key_tenant = t, key_name = k\<rparr>"


text \<open>
  Modelled from the spec: the Storage Provider's \<open>get\<close> is missing. Section 4.1:
  it fails with \<open>NotFound\<close> if the key is absent.
\<close>

definition sp_get :: "storage_key \<Rightarrow> blob_store \<Rightarrow> error + bytes" where
  "sp_get sk bl = (case bl sk of None \<Rightarrow> Inl NotFound | Some content \<Rightarrow> Inr content)"

text \<open>
  Modelled from the spec: the Storage Provider's \<open>delete\<close> is missing. Section
  4.1: deleting a missing key is not an error; section 4.4: the blob delete can
  fail, which is the backend not being reachable (\<open>reachable\<close> is False).
\<close>

definition sp_delete :: "bool \<Rightarrow> storage_key \<Rightarrow> blob_store \<Rightarrow> error + blob_store" where
  "sp_delete reachable sk bl =
     (if reachable then Inr (bl(sk := None)) else Inl StorageUnavailable)"

text \<open>
  Modelled from the spec: the Storage Provider's \<open>exists\<close> is missing
  (section 4.1).
\<close>

definition sp_exists :: "storage_key \<Rightarrow> blob_store \<Rightarrow> bool" where
  "sp_exists sk bl \<longleftrightarrow> bl sk \<noteq> None"

subsection \<open>Content Registry\<close>

text \<open>
  Modelled from the spec: the Content Registry's state is missing: the rows of
  the Metadata Store and the blobs of the Storage Provider (section 6, persisted
  state layout).
\<close>

record registry =
  records :: "file_record list"
  blobs :: blob_store

text \<open>
  Modelled from the spec: the \<open>Ack\<close> that \<open>delete\<close> returns (section 6) is
  missing.
\<close>

datatype ack = Ack

text \<open>
  Modelled from the spec: the Content Registry's \<open>fetch\<close> is missing. Section
  4.4: resolve the record by id and tenant, a mismatch being \<open>NotFound\<close>, then
  read the bytes behind the record's \<open>storageKey\<close>; section 5: a fetch after
  tombstoning fails with \<open>NotFound\<close>.
\<close>

definition fetch :: "tenant \<Rightarrow> nat \<Rightarrow> registry \<Rightarrow> error + bytes" where
  "fetch ctx i st =
     (case ms_get ctx i (records st) of
        Inl e \<Rightarrow> Inl NotFound
      | Inr r \<Rightarrow> if status r = Active then sp_get (storageKey r) (blobs st) else Inl NotFound)"




text \<open>
  Modelled from the spec: the Content Registry's \<open>delete\<close> is missing. Section
  4.4: it marks the record \<open>Tombstoned\<close> in the Metadata Store; the blob is
  reclaimed later.
\<close>

definition delete :: "tenant \<Rightarrow> nat \<Rightarrow> nat \<Rightarrow> registry \<Rightarrow> (error + ack) \<times> registry" where
  "delete ctx i now st =
     (case ms_softDelete ctx i now (records st) of
        Inl e \<Rightarrow> (Inl e, st)
      | Inr rows \<Rightarrow> (Inr Ack, st\<lparr>records := rows\<rparr>))"

text \<open>
  Modelled from the spec: the marking that the purge step applies is missing.
  Section 4.4: \<open>Tombstoned -> Purged\<close>, and no other transition.
\<close>

definition bury :: "nat \<Rightarrow> file_record \<Rightarrow> file_record" where
  "bury now r =
     (if status r = Tombstoned then r\<lparr>updatedAt := now, status := Purged\<rparr> else r)"

text \<open>
  Modelled from the spec: the Content Registry's purge step is missing. Section
  4.4: for a \<open>Tombstoned\<close> record it issues \<open>delete\<close> to the Storage Provider and
  then marks the record \<open>Purged\<close>; if the blob delete fails, the record remains
  \<open>Tombstoned\<close> and the step is retried.
\<close>

definition purge :: "tenant \<Rightarrow> nat \<Rightarrow> bool \<Rightarrow> nat \<Rightarrow> registry \<Rightarrow> (error + ack) \<times> registry" where
  "purge ctx i reachable now st =
     (case ms_get ctx i (records st) of
        Inl e \<Rightarrow> (Inl e, st)
      | Inr r \<Rightarrow>
          if status r \<noteq> Tombstoned then (Inr Ack, st)
          else (case sp_delete reachable (storageKey r) (blobs st) of
                  Inl e \<Rightarrow> (Inl e, st)
                | Inr bl \<Rightarrow>
                    (case ms_update ctx i (bury now) (records st) of
                       Inl e \<Rightarrow> (Inl e, st)
                     | Inr rows \<Rightarrow> (Inr Ack, \<lparr>records = rows, blobs = bl\<rparr>))))"










subsection \<open>Notions used to state the properties\<close>

text \<open>
  Modelled from the spec: section 4.3's order between two rows, \<open>createdAt\<close>
  descending with ties broken by \<open>id\<close>, as a relation.
\<close>

definition newer_first :: "file_record \<Rightarrow> file_record \<Rightarrow> bool" where
  "newer_first a b \<longleftrightarrow>
     createdAt b < createdAt a \<or> (createdAt a = createdAt b \<and> fr_id a \<le> fr_id b)"

text \<open>
  Modelled from the spec: a page request that holds every row of the store, for
  speaking of a query's whole result.
\<close>

definition everything :: "file_record list \<Rightarrow> page_request" where
  "everything rows = \<lparr>limit = length rows, offset = 0\<rparr>"

text \<open>
  Modelled from the spec: what section 3 calls immutable and what places a
  record: its id, its tenant and its storage key.
\<close>

definition identity_of :: "file_record \<Rightarrow> nat \<times> tenant \<times> storage_key" where
  "identity_of r = (fr_id r, tenantId r, storageKey r)"



text \<open>
  Modelled from the spec: the state that section 4.4's delete leaves a file in.
  The caller owns a record of that id, and no such record is \<open>Active\<close>.
\<close>

definition retired :: "tenant \<Rightarrow> nat \<Rightarrow> registry \<Rightarrow> bool" where
  "retired ctx i st \<longleftrightarrow>
     list_ex (owned ctx i) (records st) \<and>
     list_all (\<lambda>r. owned ctx i r \<longrightarrow> status r \<noteq> Active) (records st)"

section \<open>Example inputs\<close>

text \<open>
  Concrete states and inputs for the instances below. \<open>ascii_toLowerCase\<close> is
  \<open>toLowerCase\<close> on strings of ASCII code units, and \<open>digits_parseInt\<close> is
  \<open>parseInt(s, 10)\<close> on strings of at most fifteen decimal digits; on a longer
  one the engine rounds to a double, which \<open>digits_parseInt\<close> does not follow,
  and on any other string it answers \<open>NaN\<close> where the engine may parse a prefix.
\<close>

definition tagged :: "string list \<Rightarrow> string \<Rightarrow> upload_state" where
  "tagged ts cur = Upload_init\<lparr>tags := map js ts, currentTag := js cur\<rparr>"

definition picked :: "string \<Rightarrow> string \<Rightarrow> jsfile" where
  "picked n t = \<lparr>file_name = js n, file_size = 120, file_type = js t\<rparr>"

definition ascii_toLowerCase :: "jsstring \<Rightarrow> jsstring" where
  "ascii_toLowerCase s = map (\<lambda>c. if 0x41 \<le> c \<and> c \<le> 0x5A then c + 0x20 else c) s"

definition digits_parseInt :: "jsstring \<Rightarrow> jsnumber" where
  "digits_parseInt s =
     (if s \<noteq> [] \<and> list_all (\<lambda>c. 0x30 \<le> c \<and> c \<le> 0x39) s
      then Num (foldl (\<lambda>n c. 10 * n + (uint c - 0x30)) 0 s) else NaN)"

definition Files_example :: files_state where
  "Files_example = \<lparr>searchTerm = js ''P'', page = Num 1, rowsPerPage = Num 1\<rparr>"

text \<open>
  A registry with three files of tenant \<open>t1\<close> and one of tenant \<open>t2\<close>, and a
  filter for the PDF files tagged \<open>finance\<close> that are \<open>Active\<close>.
\<close>

definition entry :: "nat \<Rightarrow> tenant \<Rightarrow> string \<Rightarrow> string list \<Rightarrow> nat \<Rightarrow> file_record" where
  "entry i t name tgs created =
     \<lparr>fr_id = i, tenantId = t, fr_filename = name, contentType = ''application/octet-stream'',
      sizeBytes = 3, storageKey = make_key t name, storageProvider = Local,
      metadataXml = None, fr_tags = tgs, createdAt = created, updatedAt = created,
      status = Active\<rparr>"

definition shelf :: registry where
  "shelf =
     \<lparr>records =
        [entry 1 ''t1'' ''report.pdf'' [''finance''] 10,
         entry 2 ''t2'' ''notes.txt'' [] 11,
         entry 3 ''t1'' ''summary.pdf'' [''finance'', ''q3''] 10,
         entry 4 ''t1'' ''budget.pdf'' [''finance''] 12],
      blobs =
        [make_key ''t1'' ''report.pdf'' \<mapsto> [1, 2, 3],
         make_key ''t2'' ''notes.txt'' \<mapsto> [4, 5, 6],
         make_key ''t1'' ''summary.pdf'' \<mapsto> [7, 8, 9],
         make_key ''t1'' ''budget.pdf'' \<mapsto> [10, 11, 12]]\<rparr>"

definition finance_pdfs :: query_filter where
  "finance_pdfs =
     \<lparr>q_tenant = None, q_filename = Some ''.pdf'', q_tags = [''finance''],
      q_status = Some Active\<rparr>"




section \<open>Facts about the built-ins\<close>

lemma trim_Nil_iff: "trim s = [] \<longleftrightarrow> (\<forall>c \<in> set s. isWhiteSpace c)"
proof
  assume empty: "trim s = []"
  show "\<forall>c \<in> set s. isWhiteSpace c"
  proof (rule ccontr)
    assume "\<not> (\<forall>c \<in> set s. isWhiteSpace c)"
    then have rest: "dropWhile isWhiteSpace s \<noteq> []"
      by simp
    then have "\<not> isWhiteSpace (hd (dropWhile isWhiteSpace s))"
      by (rule hd_dropWhile)
    moreover have "hd (dropWhile isWhiteSpace s) \<in> set (rev (dropWhile isWhiteSpace s))"
      using rest by simp
    ultimately have "dropWhile isWhiteSpace (rev (dropWhile isWhiteSpace s)) \<noteq> []"
      by (auto simp: dropWhile_eq_Nil_conv)
    with empty show False
      by (simp add: trim_def)
  qed
next
  assume "\<forall>c \<in> set s. isWhiteSpace c"
  then have "dropWhile isWhiteSpace s = []"
    by (simp add: dropWhile_eq_Nil_conv)
  then show "trim s = []"
    unfolding trim_def by (simp del: dropWhile_eq_Nil_conv)
qed

lemma str_includes_iff: "str_includes s t \<longleftrightarrow> (\<exists>pre post. s = pre @ t @ post)"
proof (induction s)
  case Nil
  then show ?case by auto
next
  case (Cons c s)
  show ?case
  proof
    assume "str_includes (c # s) t"
    then consider "prefix t (c # s)" | "str_includes s t" by auto
    then show "\<exists>pre post. c # s = pre @ t @ post"
    proof cases
      case 1
      then obtain post where "c # s = t @ post" by (auto simp: prefix_def)
      then have "c # s = [] @ t @ post" by simp
      then show ?thesis by blast
    next
      case 2
      with Cons.IH obtain pre post where "s = pre @ t @ post" by blast
      then have "c # s = (c # pre) @ t @ post" by simp
      then show ?thesis by blast
    qed
  next
    assume "\<exists>pre post. c # s = pre @ t @ post"
    then obtain pre post where split: "c # s = pre @ t @ post" by blast
    show "str_includes (c # s) t"
    proof (cases pre)
      case Nil
      with split have "prefix t (c # s)" by (simp add: prefix_def)
      then show ?thesis by simp
    next
      case (Cons p pre')
      with split have "s = pre' @ t @ post" by simp
      with Cons.IH have "str_includes s t" by blast
      then show ?thesis by simp
    qed
  qed
qed

lemma str_includes_Nil: "str_includes s []"
  by (cases s) simp_all

section \<open>The tag list of the Upload page\<close>

lemma handleAddTag_distinct: "distinct (tags st) \<Longrightarrow> distinct (tags (handleAddTag st))"
  by (simp add: handleAddTag_def)

lemma upload_step_distinct: "distinct (tags st) \<Longrightarrow> distinct (tags (upload_step st ev))"
proof (cases ev)
  case AddTag
  assume "distinct (tags st)"
  with AddTag show ?thesis by (simp add: handleAddTag_distinct)
next
  case (RemoveTag t)
  assume "distinct (tags st)"
  with RemoveTag show ?thesis by (simp add: handleRemoveTag_def)
next
  case (XmlFileChange files)
  assume "distinct (tags st)"
  with XmlFileChange show ?thesis
    by (simp add: handleXmlFileChange_def split: option.splits list.splits)
next
  case (Drop fs)
  assume "distinct (tags st)"
  with Drop show ?thesis by (simp add: onDrop_def split: list.splits)
next
  case Upload
  assume "distinct (tags st)"
  with Upload show ?thesis by (simp add: handleUpload_def split: option.splits)
next
  case Tick
  assume "distinct (tags st)"
  with Tick show ?thesis by (simp add: progressTick_def)
qed simp

lemma run_distinct: "distinct (tags st) \<Longrightarrow> distinct (tags (foldl upload_step st evs))"
  by (induction evs arbitrary: st) (simp_all add: upload_step_distinct)

lemma count_list_filter_neq: "u \<noteq> t \<Longrightarrow> count_list (filter (\<lambda>x. x \<noteq> t) xs) u = count_list xs u"
  by (induction xs) auto

text \<open>
  Claim C8. From the initial state, whatever the user does, the tag list holds no
  tag twice. \<open>handleAddTag\<close> appends the trimmed input exactly when it is not
  empty and not yet in the list, clearing the input; when the trimmed input is
  already in the list, or the input is only white space, the state is unchanged.
  \<open>handleRemoveTag\<close> removes every occurrence of the given tag, keeps every other
  tag as often as it was and in the same order, and touches no other field.
\<close>

theorem handleAddTag_tag_set:
  "distinct (tags (foldl upload_step Upload_init evs)) \<and>
   (distinct (tags st) \<longrightarrow> distinct (tags (handleAddTag st))) \<and>
   (trim (currentTag st) \<noteq> [] \<and> trim (currentTag st) \<notin> set (tags st) \<longrightarrow>
      handleAddTag st = st\<lparr>tags := tags st @ [trim (currentTag st)], currentTag := []\<rparr>) \<and>
   (trim (currentTag st) \<in> set (tags st) \<longrightarrow> handleAddTag st = st) \<and>
   ((\<forall>c \<in> set (currentTag st). isWhiteSpace c) \<longrightarrow> handleAddTag st = st) \<and>
   t \<notin> set (tags (handleRemoveTag st t)) \<and>
   (\<forall>u. u \<noteq> t \<longrightarrow> count_list (tags (handleRemoveTag st t)) u = count_list (tags st) u) \<and>
   subseq (tags (handleRemoveTag st t)) (tags st) \<and>
   handleRemoveTag st t = st\<lparr>tags := tags (handleRemoveTag st t)\<rparr>"
proof -
  have reach: "distinct (tags (foldl upload_step Upload_init evs))"
    by (rule run_distinct) (simp add: Upload_init_def)
  have keep: "distinct (tags st) \<longrightarrow> distinct (tags (handleAddTag st))"
    by (simp add: handleAddTag_distinct)
  have add: "trim (currentTag st) \<noteq> [] \<and> trim (currentTag st) \<notin> set (tags st) \<longrightarrow>
      handleAddTag st = st\<lparr>tags := tags st @ [trim (currentTag st)], currentTag := []\<rparr>"
    by (simp add: handleAddTag_def)
  have present: "trim (currentTag st) \<in> set (tags st) \<longrightarrow> handleAddTag st = st"
    by (simp add: handleAddTag_def)
  have blank: "(\<forall>c \<in> set (currentTag st). isWhiteSpace c) \<longrightarrow> handleAddTag st = st"
    using trim_Nil_iff [of "currentTag st"] by (simp add: handleAddTag_def)
  have gone: "t \<notin> set (tags (handleRemoveTag st t))"
    by (simp add: handleRemoveTag_def)
  have others: "\<forall>u. u \<noteq> t \<longrightarrow> count_list (tags (handleRemoveTag st t)) u = count_list (tags st) u"
    by (simp add: handleRemoveTag_def count_list_filter_neq)
  have order: "subseq (tags (handleRemoveTag st t)) (tags st)"
    by (simp add: handleRemoveTag_def)
  have frame: "handleRemoveTag st t = st\<lparr>tags := tags (handleRemoveTag st t)\<rparr>"
    by (simp add: handleRemoveTag_def)
  from reach keep add present blank gone others order frame show ?thesis
    by blast
qed

theorem handleAddTag_tag_set_witness:
  "distinct (tags (tagged [''finance''] '' q3 '')) \<and>
   trim (currentTag (tagged [''finance''] '' q3 '')) \<noteq> [] \<and>
   trim (currentTag (tagged [''finance''] '' q3 '')) \<notin> set (tags (tagged [''finance''] '' q3 '')) \<and>
   handleAddTag (tagged [''finance''] '' q3 '') = tagged [''finance'', ''q3''] [] \<and>
   distinct (tags (handleAddTag (tagged [''finance''] '' q3 ''))) \<and>
   trim (currentTag (tagged [''finance'', ''q3''] '' finance'')) \<in> set (tags (tagged [''finance'', ''q3''] '' finance'')) \<and>
   handleAddTag (tagged [''finance'', ''q3''] '' finance'') = tagged [''finance'', ''q3''] '' finance'' \<and>
   list_all isWhiteSpace (currentTag (tagged [''finance''] ''   '')) \<and>
   handleAddTag (tagged [''finance''] ''   '') = tagged [''finance''] ''   '' \<and>
   js ''q3'' \<noteq> js ''finance'' \<and>
   tags (handleRemoveTag (tagged [''finance'', ''q3''] []) (js ''finance'')) = [js ''q3''] \<and>
   count_list (tags (handleRemoveTag (tagged [''finance'', ''q3''] []) (js ''finance''))) (js ''q3'') = 1 \<and>
   tags (foldl upload_step Upload_init
     [TypeTag (js '' finance ''), AddTag, TypeTag (js ''finance''), AddTag, TypeTag (js ''q3''), AddTag,
      RemoveTag (js ''finance'')]) = [js ''q3'']"
proof -
  let ?fresh = "tagged [''finance''] '' q3 ''"
  let ?dup = "tagged [''finance'', ''q3''] '' finance''"
  let ?blank = "tagged [''finance''] ''   ''"
  have trims: "trim (js '' q3 '') = js ''q3''" "trim (js '' finance'') = js ''finance''"
    by (simp_all add: trim_def js_def isWhiteSpace_def)
  have h1: "distinct (tags ?fresh)"
    by (simp add: tagged_def)
  have h2: "trim (currentTag ?fresh) \<noteq> [] \<and> trim (currentTag ?fresh) \<notin> set (tags ?fresh)"
    by (simp add: tagged_def trims) (simp add: js_def)
  have h3: "trim (currentTag ?dup) \<in> set (tags ?dup)"
    by (simp add: tagged_def trims)
  have h4: "\<forall>c \<in> set (currentTag ?blank). isWhiteSpace c"
    by (simp add: tagged_def js_def isWhiteSpace_def)
  have ne: "js ''q3'' \<noteq> js ''finance''"
    by (simp add: js_def)
  have c1: "handleAddTag ?fresh = ?fresh\<lparr>tags := tags ?fresh @ [trim (currentTag ?fresh)], currentTag := []\<rparr>"
    using handleAddTag_tag_set [of "[]" ?fresh "js ''finance''"] h2 by blast
  have c2: "distinct (tags (handleAddTag ?fresh))"
    using handleAddTag_tag_set [of "[]" ?fresh "js ''finance''"] h1 by blast
  have c3: "handleAddTag ?dup = ?dup"
    using handleAddTag_tag_set [of "[]" ?dup "js ''finance''"] h3 by blast
  have c4: "handleAddTag ?blank = ?blank"
    using handleAddTag_tag_set [of "[]" ?blank "js ''finance''"] h4 by blast
  have c5: "count_list (tags (handleRemoveTag (tagged [''finance'', ''q3''] []) (js ''finance''))) (js ''q3'')
      = count_list (tags (tagged [''finance'', ''q3''] [])) (js ''q3'')"
    using handleAddTag_tag_set [of "[]" "tagged [''finance'', ''q3''] []" "js ''finance''"] ne by blast
  have c6: "tags (handleRemoveTag (tagged [''finance'', ''q3''] []) (js ''finance'')) = [js ''q3'']"
    using ne by (simp add: handleRemoveTag_def tagged_def)
  have c1': "handleAddTag ?fresh = tagged [''finance'', ''q3''] []"
    unfolding c1 by (simp add: tagged_def trims) (simp add: js_def)
  have c5': "count_list (tags (handleRemoveTag (tagged [''finance'', ''q3''] []) (js ''finance''))) (js ''q3'') = 1"
    unfolding c5 using ne by (simp add: tagged_def)
  have run: "tags (foldl upload_step Upload_init
     [TypeTag (js '' finance ''), AddTag, TypeTag (js ''finance''), AddTag, TypeTag (js ''q3''), AddTag,
      RemoveTag (js ''finance'')]) = [js ''q3'']"
    by (simp add: Upload_init_def handleAddTag_def handleRemoveTag_def trim_def js_def
        isWhiteSpace_def)
  from h1 h2 c1' c2 h3 c3 h4 c4 ne c6 c5' run show ?thesis
    by (simp add: list_all_iff)
qed

section \<open>The XML metadata input\<close>

text \<open>
  Claim C10. \<open>handleXmlFileChange\<close> stores the chosen file when its reported
  MIME type is exactly \<open>text/xml\<close>, and only then: for a first file of any other
  type, whatever its name, and for no file, the whole state is unchanged; if
  \<open>xmlFile\<close> changed, a file of type \<open>text/xml\<close> was chosen and is the new value;
  no other field changes.
\<close>

theorem handleXmlFileChange_text_xml_only:
  "(file_type file = js ''text/xml'' \<longrightarrow>
      handleXmlFileChange st (Some (file # others)) = st\<lparr>xmlFile := Some file\<rparr>) \<and>
   (file_type file \<noteq> js ''text/xml'' \<longrightarrow>
      handleXmlFileChange st (Some (file # others)) = st) \<and>
   handleXmlFileChange st None = st \<and>
   handleXmlFileChange st (Some []) = st \<and>
   (xmlFile (handleXmlFileChange st files) \<noteq> xmlFile st \<longrightarrow>
      (\<exists>chosen rest. files = Some (chosen # rest) \<and> file_type chosen = js ''text/xml'' \<and>
         xmlFile (handleXmlFileChange st files) = Some chosen)) \<and>
   handleXmlFileChange st files = st\<lparr>xmlFile := xmlFile (handleXmlFileChange st files)\<rparr>"
  by (auto simp: handleXmlFileChange_def split: option.splits list.splits)

theorem handleXmlFileChange_text_xml_only_witness:
  "file_type (picked ''meta.xml'' ''text/xml'') = js ''text/xml'' \<and>
   xmlFile (handleXmlFileChange Upload_init (Some [picked ''meta.xml'' ''text/xml''])) =
     Some (picked ''meta.xml'' ''text/xml'') \<and>
   file_type (picked ''meta.xml'' ''application/xml'') \<noteq> js ''text/xml'' \<and>
   handleXmlFileChange Upload_init (Some [picked ''meta.xml'' ''application/xml'']) = Upload_init \<and>
   xmlFile (handleXmlFileChange Upload_init (Some [picked ''meta.xml'' ''text/xml''])) \<noteq>
     xmlFile Upload_init \<and>
   (\<exists>chosen rest. Some [picked ''meta.xml'' ''text/xml''] = Some (chosen # rest) \<and>
      file_type chosen = js ''text/xml'')"
proof -
  let ?xml = "picked ''meta.xml'' ''text/xml''"
  let ?other = "picked ''meta.xml'' ''application/xml''"
  have h1: "file_type ?xml = js ''text/xml''"
    by (simp add: picked_def)
  have h2: "file_type ?other \<noteq> js ''text/xml''"
    by (simp add: picked_def js_def)
  have c1: "handleXmlFileChange Upload_init (Some (?xml # [])) = Upload_init\<lparr>xmlFile := Some ?xml\<rparr>"
    using handleXmlFileChange_text_xml_only [of ?xml Upload_init "[]" None] h1 by blast
  have c2: "handleXmlFileChange Upload_init (Some (?other # [])) = Upload_init"
    using handleXmlFileChange_text_xml_only [of ?other Upload_init "[]" None] h2 by blast
  have c3: "xmlFile (handleXmlFileChange Upload_init (Some [?xml])) \<noteq> xmlFile Upload_init"
    unfolding c1 by (simp add: Upload_init_def)
  have c4: "\<exists>chosen rest. Some [?xml] = Some (chosen # rest) \<and> file_type chosen = js ''text/xml''"
    using handleXmlFileChange_text_xml_only [of ?xml Upload_init "[]" "Some [?xml]"] c3 by blast
  from h1 h2 c1 c2 c3 c4 show ?thesis by simp
qed

section \<open>The Files page: filter and pagination\<close>

lemma slice_window:
  assumes "0 \<le> a" "0 \<le> r"
  shows "slice xs (Num a) (Num (a + r)) = take (nat r) (drop (nat a) xs)"
proof -
  let ?len = "int (length xs)"
  consider (inside) "a + r \<le> ?len" | (overlap) "a \<le> ?len" "?len < a + r" | (beyond) "?len < a"
    by linarith
  then show ?thesis
  proof cases
    case inside
    with assms show ?thesis
      by (simp add: slice_def Let_def min_def max_def)
  next
    case overlap
    then have "length (drop (nat a) xs) \<le> nat r"
      using assms by simp
    then have "take (nat r) (drop (nat a) xs) = drop (nat a) xs"
      by simp
    moreover have "slice xs (Num a) (Num (a + r)) = drop (nat a) xs"
      using overlap assms by (simp add: slice_def Let_def min_def max_def) arith
    ultimately show ?thesis by simp
  next
    case beyond
    with assms show ?thesis
      by (simp add: slice_def Let_def min_def max_def)
  qed
qed

lemma slice_page:
  assumes "0 \<le> p" "0 \<le> r"
  shows "slice xs (Num (p * r)) (Num (p * r + r)) = take (nat r) (drop (nat (p * r)) xs)"
  using assms by (intro slice_window) simp_all


lemma filteredFiles_Nil_term:
  assumes "toLowerCase [] = []"
  shows "filteredFiles toLowerCase files [] = files"
  using assms by (simp add: filteredFiles_def str_includes_Nil)

lemma renderedRows_window:
  assumes "page st = Num p" "rowsPerPage st = Num r" "0 \<le> p" "0 \<le> r"
  shows "renderedRows toLowerCase files st =
    take (nat r) (drop (nat (p * r)) (filteredFiles toLowerCase files (searchTerm st)))"
  using assms by (simp add: renderedRows_def slice_page)

text \<open>
  Claim C9. \<open>filteredFiles\<close> is the rows whose lower-cased file name contains the
  lower-cased search term, in the order of the list; with the empty search term
  (which lower-cases to itself) it is every row. With \<open>page\<close> and \<open>rowsPerPage\<close>
  non-negative integers the table shows \<open>rowsPerPage\<close> rows of \<open>filteredFiles\<close>
  from index \<open>page * rowsPerPage\<close>, fewer at the end of the list, and so at most
  \<open>rowsPerPage\<close> rows. Changing the rows per page sets \<open>page\<close> to 0 and
  \<open>rowsPerPage\<close> to the parsed value, and keeps the search term.
\<close>

theorem Files_filter_and_page:
  "filteredFiles toLowerCase files s =
     filter (\<lambda>file. \<exists>pre post. toLowerCase (filename file) = pre @ toLowerCase s @ post) files \<and>
   (toLowerCase [] = [] \<longrightarrow> filteredFiles toLowerCase files [] = files) \<and>
   (page st = Num p \<and> rowsPerPage st = Num r \<and> 0 \<le> p \<and> 0 \<le> r \<longrightarrow>
      renderedRows toLowerCase files st =
        take (nat r) (drop (nat (p * r)) (filteredFiles toLowerCase files (searchTerm st))) \<and>
      int (length (renderedRows toLowerCase files st)) \<le> r) \<and>
   page (onRowsPerPageChange parseInt10 st v) = Num 0 \<and>
   rowsPerPage (onRowsPerPageChange parseInt10 st v) = parseInt10 v \<and>
   searchTerm (onRowsPerPageChange parseInt10 st v) = searchTerm st"
proof -
  have exact: "filteredFiles toLowerCase files s =
     filter (\<lambda>file. \<exists>pre post. toLowerCase (filename file) = pre @ toLowerCase s @ post) files"
    by (simp add: filteredFiles_def str_includes_iff)
  have all: "toLowerCase [] = [] \<longrightarrow> filteredFiles toLowerCase files [] = files"
    by (simp add: filteredFiles_Nil_term)
  have window: "renderedRows toLowerCase files st =
        take (nat r) (drop (nat (p * r)) (filteredFiles toLowerCase files (searchTerm st))) \<and>
      int (length (renderedRows toLowerCase files st)) \<le> r"
    if "page st = Num p \<and> rowsPerPage st = Num r \<and> 0 \<le> p \<and> 0 \<le> r"
  proof -
    from that have eq: "renderedRows toLowerCase files st =
        take (nat r) (drop (nat (p * r)) (filteredFiles toLowerCase files (searchTerm st)))"
      by (simp add: renderedRows_window)
    have "length (take (nat r) (drop (nat (p * r)) (filteredFiles toLowerCase files (searchTerm st)))) \<le> nat r"
      by simp
    with that have "int (length (renderedRows toLowerCase files st)) \<le> r"
      unfolding eq by linarith
    with eq show ?thesis by simp
  qed
  have reset: "page (onRowsPerPageChange parseInt10 st v) = Num 0 \<and>
      rowsPerPage (onRowsPerPageChange parseInt10 st v) = parseInt10 v \<and>
      searchTerm (onRowsPerPageChange parseInt10 st v) = searchTerm st"
    by (simp add: onRowsPerPageChange_def)
  from exact all window reset show ?thesis
    by blast
qed

theorem Files_filter_and_page_witness:
  "ascii_toLowerCase [] = [] \<and>
   filteredFiles ascii_toLowerCase mockFiles [] = mockFiles \<and>
   map fd_id (filteredFiles ascii_toLowerCase mockFiles (js ''REPORT'')) = [js ''2''] \<and>
   page Files_example = Num 1 \<and> rowsPerPage Files_example = Num 1 \<and> (0::int) \<le> 1 \<and>
   map fd_id (renderedRows ascii_toLowerCase mockFiles Files_example) = [js ''2''] \<and>
   int (length (renderedRows ascii_toLowerCase mockFiles Files_example)) \<le> 1 \<and>
   onRowsPerPageChange digits_parseInt Files_example (js ''25'') =
     \<lparr>searchTerm = js ''P'', page = Num 0, rowsPerPage = Num 25\<rparr>"
proof -
  have lower: "ascii_toLowerCase [] = []"
    by (simp add: ascii_toLowerCase_def)
  have st: "page Files_example = Num 1 \<and> rowsPerPage Files_example = Num 1 \<and> (0::int) \<le> 1 \<and> (0::int) \<le> 1"
    by (simp add: Files_example_def)
  note inst = Files_filter_and_page [of ascii_toLowerCase mockFiles "js ''REPORT''" Files_example 1 1 digits_parseInt "js ''25''"]
  have a: "filteredFiles ascii_toLowerCase mockFiles [] = mockFiles"
    using inst lower by blast
  have b: "renderedRows ascii_toLowerCase mockFiles Files_example =
      take (nat 1) (drop (nat (1 * 1)) (filteredFiles ascii_toLowerCase mockFiles (searchTerm Files_example)))"
    using inst st by blast
  have c: "int (length (renderedRows ascii_toLowerCase mockFiles Files_example)) \<le> 1"
    using inst st by blast
  have d: "map fd_id (filteredFiles ascii_toLowerCase mockFiles (js ''REPORT'')) = [js ''2'']"
    by (simp add: filteredFiles_def mockFiles_def ascii_toLowerCase_def js_def)
  have e: "map fd_id (filteredFiles ascii_toLowerCase mockFiles (js ''P'')) = [js ''1'', js ''2'', js ''3'']"
    by (simp add: filteredFiles_def mockFiles_def ascii_toLowerCase_def js_def)
  have f: "map fd_id (renderedRows ascii_toLowerCase mockFiles Files_example) = [js ''2'']"
    unfolding b using e by (simp add: Files_example_def drop_map take_map flip: drop_map take_map)
  have g: "onRowsPerPageChange digits_parseInt Files_example (js ''25'') =
     \<lparr>searchTerm = js ''P'', page = Num 0, rowsPerPage = Num 25\<rparr>"
    by (simp add: onRowsPerPageChange_def Files_example_def digits_parseInt_def js_def)
  from lower a d st f c g show ?thesis by simp
qed

section \<open>Metadata Store: query\<close>

lemma order_key_le: "order_key a \<le> order_key b \<longleftrightarrow> newer_first a b"
  by (auto simp: order_key_def newer_first_def)

lemma order_key_inj: "distinct (map fr_id rows) \<Longrightarrow> inj_on order_key (set rows)"
  by (auto simp: inj_on_def order_key_def distinct_map)

lemma ms_query_everything:
  "ms_query ctx flt (everything rows) rows = sort_key order_key (filter (matches ctx flt) rows)"
proof -
  have "length (sort_key order_key (filter (matches ctx flt) rows)) \<le> length rows"
    by simp
  then show ?thesis
    by (simp add: ms_query_def everything_def)
qed

lemma ms_query_sorted: "sorted_wrt newer_first (ms_query ctx flt (everything rows) rows)"
proof -
  have "sorted (map order_key (sort_key order_key (filter (matches ctx flt) rows)))"
    by (rule sorted_sort_key)
  then show ?thesis
    by (simp add: ms_query_everything sorted_map order_key_le)
qed

lemma ms_query_permuted:
  assumes "distinct (map fr_id rows)" "mset rows' = mset rows"
  shows "ms_query ctx flt pg rows' = ms_query ctx flt pg rows"
proof -
  let ?P = "matches ctx flt"
  have "mset (filter ?P rows') = mset (filter ?P rows)"
    using assms(2) by (metis mset_filter)
  moreover have "inj_on order_key (set (filter ?P rows'))"
  proof -
    have "set rows' = set rows" using assms(2) by (rule mset_eq_setD)
    with order_key_inj [OF assms(1)] show ?thesis
      by (auto intro: inj_on_subset)
  qed
  ultimately have "sort_key order_key (filter ?P rows') = sort_key order_key (filter ?P rows)"
    by (rule sort_key_eq_sort_key)
  then show ?thesis
    by (simp add: ms_query_def)
qed

lemma matches_iff:
  "matches ctx flt r \<longleftrightarrow>
     tenantId r = ctx \<and>
     (\<forall>s. q_filename flt = Some s \<longrightarrow> (\<exists>pre post. fr_filename r = pre @ s @ post)) \<and>
     set (q_tags flt) \<subseteq> set (fr_tags r) \<and>
     (\<forall>s. q_status flt = Some s \<longrightarrow> status r = s)"
  by (auto simp: matches_def str_includes_iff list_all_iff split: option.splits)

text \<open>
  Claim C5. Every row a Metadata Store query returns is a stored row of the
  caller's tenant, and the result does not depend on the tenant written into the
  filter, given or omitted. Without pagination the result is exactly the rows of
  that tenant whose file name contains the requested substring, that carry every
  requested tag and that have the requested status; it is ordered by
  \<open>createdAt\<close> descending with ties broken by \<open>id\<close>, and for rows with unique
  ids it is the same in whatever order the store holds them. A page is \<open>limit\<close>
  rows of that result from \<open>offset\<close>.
\<close>

theorem ms_query_semantics:
  "(\<forall>r \<in> set (ms_query ctx flt pg rows). r \<in> set rows \<and> tenantId r = ctx) \<and>
   set (ms_query ctx flt (everything rows) rows) =
     {r \<in> set rows. tenantId r = ctx \<and>
        (\<forall>s. q_filename flt = Some s \<longrightarrow> (\<exists>pre post. fr_filename r = pre @ s @ post)) \<and>
        set (q_tags flt) \<subseteq> set (fr_tags r) \<and>
        (\<forall>s. q_status flt = Some s \<longrightarrow> status r = s)} \<and>
   ms_query ctx (flt\<lparr>q_tenant := other\<rparr>) pg rows = ms_query ctx flt pg rows \<and>
   sorted_wrt newer_first (ms_query ctx flt (everything rows) rows) \<and>
   (distinct (map fr_id rows) \<and> mset rows' = mset rows \<longrightarrow>
      ms_query ctx flt pg rows' = ms_query ctx flt pg rows) \<and>
   ms_query ctx flt pg rows =
     take (limit pg) (drop (offset pg) (ms_query ctx flt (everything rows) rows))"
proof -
  have sub: "set (ms_query ctx flt pg rows) \<subseteq> set (sort_key order_key (filter (matches ctx flt) rows))"
    unfolding ms_query_def by (meson set_take_subset set_drop_subset subset_trans)
  have own: "\<forall>r \<in> set (ms_query ctx flt pg rows). r \<in> set rows \<and> tenantId r = ctx"
    using sub by (auto simp: matches_def)
  have exact: "set (ms_query ctx flt (everything rows) rows) =
     {r \<in> set rows. tenantId r = ctx \<and>
        (\<forall>s. q_filename flt = Some s \<longrightarrow> (\<exists>pre post. fr_filename r = pre @ s @ post)) \<and>
        set (q_tags flt) \<subseteq> set (fr_tags r) \<and>
        (\<forall>s. q_status flt = Some s \<longrightarrow> status r = s)}"
    using matches_iff [of ctx flt] by (auto simp: ms_query_everything)
  have "matches ctx (flt\<lparr>q_tenant := other\<rparr>) = matches ctx flt"
    by (simp add: fun_eq_iff matches_def)
  then have inject: "ms_query ctx (flt\<lparr>q_tenant := other\<rparr>) pg rows = ms_query ctx flt pg rows"
    by (simp add: ms_query_def)
  have ordered: "sorted_wrt newer_first (ms_query ctx flt (everything rows) rows)"
    by (rule ms_query_sorted)
  have det: "distinct (map fr_id rows) \<and> mset rows' = mset rows \<longrightarrow>
      ms_query ctx flt pg rows' = ms_query ctx flt pg rows"
    by (simp add: ms_query_permuted)
  have paged: "ms_query ctx flt pg rows =
     take (limit pg) (drop (offset pg) (ms_query ctx flt (everything rows) rows))"
    by (simp add: ms_query_everything) (simp add: ms_query_def)
  from own exact inject ordered det paged show ?thesis
    by blast
qed

theorem ms_query_semantics_witness:
  "list_all (\<lambda>r. tenantId r = ''t1'')
     (ms_query ''t1'' finance_pdfs \<lparr>limit = 2, offset = 1\<rparr> (records shelf)) \<and>
   map fr_id (ms_query ''t1'' finance_pdfs (everything (records shelf)) (records shelf)) = [4, 1, 3] \<and>
   map fr_id (ms_query ''t1'' finance_pdfs \<lparr>limit = 2, offset = 1\<rparr> (records shelf)) = [1, 3] \<and>
   ms_query ''t1'' (finance_pdfs\<lparr>q_tenant := Some ''t2''\<rparr>) \<lparr>limit = 2, offset = 1\<rparr> (records shelf) =
     ms_query ''t1'' finance_pdfs \<lparr>limit = 2, offset = 1\<rparr> (records shelf) \<and>
   distinct (map fr_id (records shelf)) \<and>
   mset (rev (records shelf)) = mset (records shelf) \<and>
   ms_query ''t1'' finance_pdfs \<lparr>limit = 2, offset = 1\<rparr> (rev (records shelf)) =
     ms_query ''t1'' finance_pdfs \<lparr>limit = 2, offset = 1\<rparr> (records shelf) \<and>
   q_filename finance_pdfs = Some ''.pdf'' \<and> q_status finance_pdfs = Some Active \<and>
   entry 4 ''t1'' ''budget.pdf'' [''finance''] 12
     \<in> set (ms_query ''t1'' finance_pdfs (everything (records shelf)) (records shelf))"
proof -
  let ?pg = "\<lparr>limit = 2, offset = 1\<rparr>"
  let ?budget = "entry 4 ''t1'' ''budget.pdf'' [''finance''] 12"
  note inst = ms_query_semantics [where ctx = "''t1''" and flt = finance_pdfs and pg = ?pg
      and rows = "records shelf" and other = "Some ''t2''" and rows' = "rev (records shelf)"]
  have own: "list_all (\<lambda>r. tenantId r = ''t1'') (ms_query ''t1'' finance_pdfs ?pg (records shelf))"
    using inst by (simp add: list_all_iff)
  have inject: "ms_query ''t1'' (finance_pdfs\<lparr>q_tenant := Some ''t2''\<rparr>) ?pg (records shelf) =
      ms_query ''t1'' finance_pdfs ?pg (records shelf)"
    using inst by blast
  have ids: "distinct (map fr_id (records shelf))"
    by (simp add: shelf_def entry_def)
  have perm: "mset (rev (records shelf)) = mset (records shelf)"
    by simp
  have det: "ms_query ''t1'' finance_pdfs ?pg (rev (records shelf)) =
      ms_query ''t1'' finance_pdfs ?pg (records shelf)"
    using inst ids perm by blast
  have flt: "q_filename finance_pdfs = Some ''.pdf''" "q_status finance_pdfs = Some Active"
    by (simp_all add: finance_pdfs_def)
  have "?budget \<in> set (records shelf) \<and> tenantId ?budget = ''t1'' \<and>
      (\<forall>s. q_filename finance_pdfs = Some s \<longrightarrow> (\<exists>pre post. fr_filename ?budget = pre @ s @ post)) \<and>
      set (q_tags finance_pdfs) \<subseteq> set (fr_tags ?budget) \<and>
      (\<forall>s. q_status finance_pdfs = Some s \<longrightarrow> status ?budget = s)"
    by (simp add: shelf_def entry_def finance_pdfs_def flip: str_includes_iff)
  then have member: "?budget \<in> set (ms_query ''t1'' finance_pdfs (everything (records shelf)) (records shelf))"
    using inst by blast
  have full: "map fr_id (ms_query ''t1'' finance_pdfs (everything (records shelf)) (records shelf)) = [4, 1, 3]"
    by (simp add: shelf_def entry_def make_key_def finance_pdfs_def ms_query_def matches_def
        order_key_def everything_def)
  have paged: "map fr_id (ms_query ''t1'' finance_pdfs ?pg (records shelf)) = [1, 3]"
    by (simp add: shelf_def entry_def make_key_def finance_pdfs_def ms_query_def matches_def
        order_key_def)
  from own full paged inject ids perm det flt member show ?thesis
    by simp
qed

section \<open>Content Registry: tenant isolation\<close>

lemma ms_get_Inr: "ms_get ctx i rows = Inr r \<Longrightarrow> r \<in> set rows \<and> fr_id r = i \<and> tenantId r = ctx"
  by (auto simp: ms_get_def owned_def find_Some_iff split: option.splits)

lemma ms_get_Inl: "ms_get ctx i rows = Inl e \<Longrightarrow> e = NotFound \<and> (\<forall>r \<in> set rows. \<not> owned ctx i r)"
  by (auto simp: ms_get_def find_None_iff split: option.splits)




lemma identity_tombstone: "identity_of (tombstone now r) = identity_of r"
  by (simp add: identity_of_def tombstone_def)

lemma identity_bury: "identity_of (bury now r) = identity_of r"
  by (simp add: identity_of_def bury_def)
























section \<open>Content Registry: delete\<close>

lemma ms_get_owned: "list_ex (owned ctx i) rows \<Longrightarrow> \<exists>r. ms_get ctx i rows = Inr r"
  by (auto simp: ms_get_def list_ex_iff find_None_iff split: option.splits)

lemma owned_change:
  assumes "\<And>r. identity_of (change r) = identity_of r"
  shows "owned ctx i (change r) = owned ctx i r"
  using assms [of r] by (simp add: owned_def identity_of_def)

lemma list_ex_owned_map:
  assumes "\<And>x. owned ctx i (change x) = owned ctx i x"
  shows "list_ex (owned ctx i) (map (\<lambda>r. if owned ctx i r then change r else r) rows)
    = list_ex (owned ctx i) rows"
  by (induction rows) (auto simp: assms)

lemma list_all_retired_map:
  assumes "\<And>x. owned ctx i (change x) = owned ctx i x"
    and "\<And>x. x \<in> set rows \<Longrightarrow> owned ctx i x \<Longrightarrow> status (change x) \<noteq> Active"
  shows "list_all (\<lambda>r. owned ctx i r \<longrightarrow> status r \<noteq> Active)
    (map (\<lambda>r. if owned ctx i r then change r else r) rows)"
  using assms(2) by (induction rows) (auto simp: assms(1))

lemma retired_fetch:
  assumes "retired ctx i st"
  shows "fetch ctx i st = Inl NotFound"
proof -
  from assms obtain r where r: "ms_get ctx i (records st) = Inr r"
    by (auto simp: retired_def dest: ms_get_owned)
  then have "r \<in> set (records st)" "owned ctx i r"
    by (auto dest: ms_get_Inr simp: owned_def)
  with assms have "status r \<noteq> Active"
    by (auto simp: retired_def list_all_iff)
  with r show ?thesis by (simp add: fetch_def)
qed

lemma retired_delete:
  assumes "retired ctx i st"
  shows "delete ctx i now st = (Inr Ack, st)"
proof -
  from assms obtain r where r: "ms_get ctx i (records st) = Inr r"
    by (auto simp: retired_def dest: ms_get_owned)
  have "map (\<lambda>r. if owned ctx i r then tombstone now r else r) (records st) = records st"
    using assms by (intro map_idI) (auto simp: retired_def list_all_iff tombstone_def)
  with r show ?thesis
    by (simp add: delete_def ms_softDelete_def ms_update_def)
qed

lemma delete_retired:
  assumes "delete ctx i now st = (Inr Ack, st')"
  shows "retired ctx i st'"
proof -
  from assms obtain r where r: "ms_get ctx i (records st) = Inr r"
    by (auto simp: delete_def ms_softDelete_def ms_update_def split: sum.splits)
  with assms have st': "records st' = map (\<lambda>r. if owned ctx i r then tombstone now r else r) (records st)"
    by (auto simp: delete_def ms_softDelete_def ms_update_def)
  have keep: "owned ctx i (tombstone now x) = owned ctx i x" for x
    by (rule owned_change) (rule identity_tombstone)
  from r have "r \<in> set (records st)" "owned ctx i r"
    by (auto dest: ms_get_Inr simp: owned_def)
  then have "list_ex (owned ctx i) (records st')"
    unfolding st' by (simp add: list_ex_owned_map keep) (auto simp: list_ex_iff)
  moreover have "list_all (\<lambda>r. owned ctx i r \<longrightarrow> status r \<noteq> Active) (records st')"
    unfolding st' by (rule list_all_retired_map) (simp_all add: keep, simp add: tombstone_def)
  ultimately show ?thesis by (simp add: retired_def)
qed

lemma purge_retired:
  assumes "retired ctx i st" "purge ctx i reachable now st = (res, st')"
  shows "retired ctx i st'"
proof (cases "st' = st")
  case True
  with assms(1) show ?thesis by simp
next
  case False
  with assms(2) obtain bl where
    st': "st' = \<lparr>records = map (\<lambda>r. if owned ctx i r then bury now r else r) (records st), blobs = bl\<rparr>"
    by (auto simp: purge_def ms_update_def split: sum.splits if_splits)
  have keep: "owned ctx i (bury now x) = owned ctx i x" for x
    by (rule owned_change) (rule identity_bury)
  from assms(1) obtain r where "r \<in> set (records st)" "owned ctx i r"
    by (auto simp: retired_def list_ex_iff)
  then have "list_ex (owned ctx i) (records st')"
    unfolding st' by (simp add: list_ex_owned_map keep) (auto simp: list_ex_iff)
  moreover have "status (bury now x) \<noteq> Active" if "x \<in> set (records st)" "owned ctx i x" for x
    using that assms(1) by (auto simp: retired_def list_all_iff bury_def)
  then have "list_all (\<lambda>r. owned ctx i r \<longrightarrow> status r \<noteq> Active) (records st')"
    unfolding st' by (simp add: list_all_retired_map keep)
  ultimately show ?thesis by (simp add: retired_def)
qed

lemma delete_owned:
  assumes "list_ex (owned ctx i) (records st)"
  shows "\<exists>st'. delete ctx i now st = (Inr Ack, st')"
proof -
  from assms obtain r where "ms_get ctx i (records st) = Inr r"
    by (auto dest: ms_get_owned)
  then show ?thesis
    by (simp add: delete_def ms_softDelete_def ms_update_def)
qed

text \<open>
  Claim C4. \<open>delete\<close> by the owner of a record succeeds. After a successful
  \<open>delete(t, id)\<close>, \<open>fetch(t, id)\<close> is \<open>NotFound\<close>, no record of that id and
  tenant is \<open>Active\<close>, and a second \<open>delete(t, id)\<close> succeeds and leaves the state
  as it is; the same holds after the purge step has run, whether the blob delete
  went through or failed. The Storage Provider's \<open>delete\<close> of a missing key
  succeeds and changes nothing; it fails only when the backend is not reachable,
  and after it succeeded the key does not exist and deleting it again succeeds.
\<close>

theorem delete_idempotent:
  "((\<exists>r \<in> set (records st). fr_id r = i \<and> tenantId r = t) \<longrightarrow>
      (\<exists>st'. delete t i now st = (Inr Ack, st'))) \<and>
   (delete t i now st = (Inr Ack, st') \<longrightarrow>
      fetch t i st' = Inl NotFound \<and>
      delete t i later st' = (Inr Ack, st') \<and>
      (\<forall>r \<in> set (records st'). fr_id r = i \<and> tenantId r = t \<longrightarrow> status r \<noteq> Active)) \<and>
   (delete t i now st = (Inr Ack, st') \<and> purge t i reachable due st' = (res, st'') \<longrightarrow>
      fetch t i st'' = Inl NotFound \<and> delete t i later' st'' = (Inr Ack, st'')) \<and>
   (bl sk = None \<longrightarrow> sp_delete True sk bl = Inr bl) \<and>
   (sp_delete reachable sk bl = Inl e \<longrightarrow> \<not> reachable) \<and>
   (sp_delete True sk bl = Inr bl' \<longrightarrow> \<not> sp_exists sk bl' \<and> sp_delete True sk bl' = Inr bl')"
proof -
  have succeeds: "\<exists>st'. delete t i now st = (Inr Ack, st')"
    if "\<exists>r \<in> set (records st). fr_id r = i \<and> tenantId r = t"
    using that by (intro delete_owned) (auto simp: list_ex_iff owned_def)
  have once: "fetch t i st' = Inl NotFound \<and> delete t i later st' = (Inr Ack, st') \<and>
      (\<forall>r \<in> set (records st'). fr_id r = i \<and> tenantId r = t \<longrightarrow> status r \<noteq> Active)"
    if "delete t i now st = (Inr Ack, st')"
  proof -
    from that have "retired t i st'" by (rule delete_retired)
    then show ?thesis
      by (auto simp: retired_fetch retired_delete) (auto simp: retired_def list_all_iff owned_def)
  qed
  have purged: "fetch t i st'' = Inl NotFound \<and> delete t i later' st'' = (Inr Ack, st'')"
    if "delete t i now st = (Inr Ack, st') \<and> purge t i reachable due st' = (res, st'')"
  proof -
    from that have "retired t i st'" by (auto intro: delete_retired)
    with that have "retired t i st''" by (auto intro: purge_retired)
    then show ?thesis by (simp add: retired_fetch retired_delete)
  qed
  have missing: "bl sk = None \<longrightarrow> sp_delete True sk bl = Inr bl"
    by (auto simp: sp_delete_def)
  have cause: "sp_delete reachable sk bl = Inl e \<longrightarrow> \<not> reachable"
    by (auto simp: sp_delete_def)
  have again: "sp_delete True sk bl = Inr bl' \<longrightarrow> \<not> sp_exists sk bl' \<and> sp_delete True sk bl' = Inr bl'"
    by (auto simp: sp_delete_def sp_exists_def)
  from succeeds once purged missing cause again show ?thesis
    by blast
qed

theorem delete_idempotent_witness:
  "list_ex (\<lambda>r. fr_id r = 1 \<and> tenantId r = ''t1'') (records shelf) \<and>
   delete ''t1'' 1 20 shelf =
     (Inr Ack, shelf\<lparr>records := (entry 1 ''t1'' ''report.pdf'' [''finance''] 10)
        \<lparr>updatedAt := 20, status := Tombstoned\<rparr> # tl (records shelf)\<rparr>) \<and>
   fetch ''t1'' 1 (snd (delete ''t1'' 1 20 shelf)) = Inl NotFound \<and>
   delete ''t1'' 1 21 (snd (delete ''t1'' 1 20 shelf)) = (Inr Ack, snd (delete ''t1'' 1 20 shelf)) \<and>
   fetch ''t1'' 1 (snd (purge ''t1'' 1 True 22 (snd (delete ''t1'' 1 20 shelf)))) = Inl NotFound \<and>
   delete ''t1'' 1 23 (snd (purge ''t1'' 1 True 22 (snd (delete ''t1'' 1 20 shelf)))) =
     (Inr Ack, snd (purge ''t1'' 1 True 22 (snd (delete ''t1'' 1 20 shelf)))) \<and>
   blobs shelf (make_key ''t9'' ''gone'') = None \<and>
   sp_delete True (make_key ''t9'' ''gone'') (blobs shelf) = Inr (blobs shelf) \<and>
   sp_delete False (make_key ''t9'' ''gone'') (blobs shelf) = Inl StorageUnavailable"
proof -
  let ?tomb = "shelf\<lparr>records := (entry 1 ''t1'' ''report.pdf'' [''finance''] 10)
        \<lparr>updatedAt := 20, status := Tombstoned\<rparr> # tl (records shelf)\<rparr>"
  let ?gone = "make_key ''t9'' ''gone''"
  have owner: "\<exists>r \<in> set (records shelf). fr_id r = 1 \<and> tenantId r = ''t1''"
    by (simp add: shelf_def entry_def)
  have first: "delete ''t1'' 1 20 shelf = (Inr Ack, ?tomb)"
    by (simp add: shelf_def entry_def make_key_def delete_def ms_softDelete_def ms_update_def
        ms_get_def owned_def tombstone_def)
  obtain res st'' where later: "purge ''t1'' 1 True 22 ?tomb = (res, st'')"
    by (cases "purge ''t1'' 1 True 22 ?tomb") blast
  have missing: "blobs shelf ?gone = None"
    by (simp add: shelf_def make_key_def)
  have down: "sp_delete False ?gone (blobs shelf) = Inl StorageUnavailable"
    by (simp add: sp_delete_def)
  note inst = delete_idempotent [where st = shelf and i = 1 and t = "''t1''" and now = 20
      and st' = ?tomb and later = 21 and due = 22 and reachable = True and res = res and st'' = st''
      and later' = 23 and bl = "blobs shelf" and sk = ?gone]
  have c0: "\<exists>st'. delete ''t1'' 1 20 shelf = (Inr Ack, st')"
    using inst owner by blast
  have c1: "fetch ''t1'' 1 ?tomb = Inl NotFound \<and> delete ''t1'' 1 21 ?tomb = (Inr Ack, ?tomb)"
    using inst first by blast
  have c2: "fetch ''t1'' 1 st'' = Inl NotFound \<and> delete ''t1'' 1 23 st'' = (Inr Ack, st'')"
    using inst first later by blast
  have c3: "sp_delete True ?gone (blobs shelf) = Inr (blobs shelf)"
    using inst missing by blast
  have st'': "st'' = snd (purge ''t1'' 1 True 22 ?tomb)"
    using later by simp
  from owner first c1 c2 c3 missing down show ?thesis
    unfolding st'' by (simp add: list_ex_iff)
qed

end
